theory Spec2Isabelle
  imports Main
begin

section \<open>JavaScript values\<close>

text \<open>
  The editor of \<^verbatim>\<open>src/features/modals/NodeModal/index.tsx\<close> works on values produced
  by \<^verbatim>\<open>JSON.parse\<close> and on the flat rows of a graph node. A value is a tree: an
  object is the list of its own properties in the order the host enumerates them, an
  array is the list of its elements together with the named properties that an
  assignment such as \<^verbatim>\<open>arr["a"] = v\<close> adds to it. \<open>Undefined\<close> is what a read of an
  absent property or of an array hole yields. Numbers are carried as integers: the code
  never computes with them.

  Reads and writes follow the host on own properties, on array and string indices and
  on the \<^verbatim>\<open>length\<close> of arrays and strings. The file is an ES module and so runs in
  strict mode: a write to a property of a primitive throws a \<^verbatim>\<open>TypeError\<close>. Of the
  members that a value inherits from its prototype only the \<^verbatim>\<open>__proto__\<close> accessor
  changes what an assignment does, and that one is modelled: assigning to \<^verbatim>\<open>__proto__\<close>
  creates no own property.

  A read sees own properties only. Where a key is not an own property but names an
  inherited member (\<^verbatim>\<open>toString\<close>, \<^verbatim>\<open>constructor\<close>, \<^verbatim>\<open>__proto__\<close>, ...), the host reads
  that member, an object of its own outside the document, and the model reads
  \<open>Undefined\<close>: a walk through such a key is not represented. The properties proved
  below do not lean on it: their paths read own properties, and their last assignment
  is one that the model has.
\<close>

datatype jsval =
    Undefined
  | Null
  | Bool bool
  | Num int
  | Str string
  | Arr "jsval list" "(string \<times> jsval) list"
  | Obj "(string \<times> jsval) list"

type_synonym props = "(string \<times> jsval) list"

text \<open>What the host throws while a property is read or written.\<close>

datatype exn = TypeError | RangeError

text \<open>A path segment: \<^verbatim>\<open>typeof seg === "number"\<close> or a string.\<close>

datatype seg = SegNum nat | SegStr string

subsection \<open>Property keys\<close>

definition digit_of :: "char \<Rightarrow> nat option" where
  "digit_of c =
     map_of [(CHR ''0'', 0), (CHR ''1'', 1), (CHR ''2'', 2), (CHR ''3'', 3), (CHR ''4'', 4),
             (CHR ''5'', 5), (CHR ''6'', 6), (CHR ''7'', 7), (CHR ''8'', 8), (CHR ''9'', 9)] c"

fun decimal_value :: "nat \<Rightarrow> string \<Rightarrow> nat option" where
  "decimal_value acc [] = Some acc"
| "decimal_value acc (c # cs) =
     (case digit_of c of None \<Rightarrow> None | Some d \<Rightarrow> decimal_value (10 * acc + d) cs)"

text \<open>
  A key is an array index when it is the canonical decimal text of a number below
  \<open>2\<^sup>3\<^sup>2 - 1\<close>: \<^verbatim>\<open>"0"\<close> and \<^verbatim>\<open>"17"\<close> are, \<^verbatim>\<open>"017"\<close>, \<^verbatim>\<open>""\<close> and \<^verbatim>\<open>"a"\<close> are not.
\<close>

definition array_index :: "string \<Rightarrow> nat option" where
  "array_index k =
     (case k of
        [] \<Rightarrow> None
      | c # cs \<Rightarrow>
          if c = CHR ''0'' \<and> cs \<noteq> [] then None
          else (case decimal_value 0 k of
                  None \<Rightarrow> None
                | Some n \<Rightarrow> if n < 4294967295 then Some n else None))"

text \<open>The decimal text of a number, which is the key that the host makes of a number.\<close>

fun decimal :: "nat \<Rightarrow> string" where
  "decimal n =
     (if n < 10 then [''0123456789'' ! n]
      else decimal (n div 10) @ [''0123456789'' ! (n mod 10)])"

declare decimal.simps [simp del]

subsection \<open>Own properties of an object\<close>

text \<open>Overwriting the value of a property that exists keeps its place.\<close>

fun upd_prop :: "string \<Rightarrow> jsval \<Rightarrow> props \<Rightarrow> props" where
  "upd_prop k v [] = []"
| "upd_prop k v ((k', v') # ps) =
     (if k' = k then (k', v) # ps else (k', v') # upd_prop k v ps)"

text \<open>
  A new property whose key is an array index goes among the index keys, which come
  first in ascending order; any other new property goes last.
\<close>

fun insert_index :: "nat \<Rightarrow> string \<Rightarrow> jsval \<Rightarrow> props \<Rightarrow> props" where
  "insert_index i k v [] = [(k, v)]"
| "insert_index i k v ((k', v') # ps) =
     (case array_index k' of
        Some j \<Rightarrow> if j < i then (k', v') # insert_index i k v ps else (k, v) # (k', v') # ps
      | None \<Rightarrow> (k, v) # (k', v') # ps)"

definition add_prop :: "string \<Rightarrow> jsval \<Rightarrow> props \<Rightarrow> props" where
  "add_prop k v ps =
     (case array_index k of Some i \<Rightarrow> insert_index i k v ps | None \<Rightarrow> ps @ [(k, v)])"

text \<open>
  The assignment \<^verbatim>\<open>o[k] = v\<close> on the own properties of an object whose prototype is the
  standard one, as it is for what \<^verbatim>\<open>JSON.parse\<close> returns and for an object literal. An
  own property is overwritten; otherwise \<^verbatim>\<open>__proto__\<close> reaches the inherited accessor,
  which makes an object or \<^verbatim>\<open>null\<close> the new prototype, ignores any other value, and
  leaves the own properties alone either way; any other key is added.
\<close>

definition assign_prop :: "string \<Rightarrow> jsval \<Rightarrow> props \<Rightarrow> props" where
  "assign_prop k v ps =
     (if map_of ps k \<noteq> None then upd_prop k v ps
      else if k = ''__proto__'' then ps
      else add_prop k v ps)"

text \<open>
  \<open>assign_own\<close> follows the prototype through several assignments to one object: \<open>std\<close>
  tells whether the accessor of \<^verbatim>\<open>__proto__\<close> is still inherited. It no longer is once
  \<^verbatim>\<open>null\<close> has been made the prototype, and from then on every key, \<^verbatim>\<open>__proto__\<close>
  included, is an own property like any other.
\<close>

definition assign_own :: "bool \<Rightarrow> string \<Rightarrow> jsval \<Rightarrow> props \<Rightarrow> bool \<times> props" where
  "assign_own std k v ps =
     (if std
      then (if k = ''__proto__'' \<and> map_of ps k = None \<and> v = Null then (False, ps)
            else (True, assign_prop k v ps))
      else (False, if map_of ps k \<noteq> None then upd_prop k v ps else add_prop k v ps))"

subsection \<open>Array elements\<close>

text \<open>A read past the end yields \<open>Undefined\<close>; a write past the end extends the array
  and leaves holes in between.\<close>

definition load_elem :: "jsval list \<Rightarrow> nat \<Rightarrow> jsval" where
  "load_elem xs n = (if n < length xs then xs ! n else Undefined)"

definition store_elem :: "jsval list \<Rightarrow> nat \<Rightarrow> jsval \<Rightarrow> jsval list" where
  "store_elem xs n v =
     (if n < length xs then xs[n := v]
      else xs @ replicate (n - length xs) Undefined @ [v])"

text \<open>
  A number used as a key, \<^verbatim>\<open>arr[n]\<close>, is an element of the array when it is below
  \<open>2\<^sup>3\<^sup>2 - 1\<close>, the limit of the host on array indices. From the limit on it names
  a property, under its decimal text, and the elements and the length of the array stay
  as they are. An array of the host is never longer than the limit, so an index within
  the list is an element in any case. \<open>put_back_number\<close> puts a changed child back where
  \<open>load_number\<close> found it.
\<close>

definition load_number :: "jsval list \<Rightarrow> props \<Rightarrow> nat \<Rightarrow> jsval" where
  "load_number xs ps n =
     (if n < length xs then xs ! n
      else if n < 4294967295 then Undefined
      else (case map_of ps (decimal n) of Some v \<Rightarrow> v | None \<Rightarrow> Undefined))"

definition store_number :: "jsval list \<Rightarrow> props \<Rightarrow> nat \<Rightarrow> jsval \<Rightarrow> jsval" where
  "store_number xs ps n v =
     (if n < length xs \<or> n < 4294967295 then Arr (store_elem xs n v) ps
      else Arr xs (assign_prop (decimal n) v ps))"

definition put_back_number :: "jsval list \<Rightarrow> props \<Rightarrow> nat \<Rightarrow> jsval \<Rightarrow> jsval" where
  "put_back_number xs ps n c =
     (if n < length xs then Arr (xs[n := c]) ps else Arr xs (upd_prop (decimal n) c ps))"

text \<open>
  Assigning to \<^verbatim>\<open>length\<close> resizes the array when the value, converted to a number, is
  a length in range, and throws a \<^verbatim>\<open>RangeError\<close> otherwise. \<open>to_number\<close> converts as the
  host does \<^verbatim>\<open>null\<close>, booleans, numbers and strings of decimal digits. The host also
  reads strings with spaces, a sign, a fraction or an exponent, and converts an array
  through its text; for those the model reports the \<^verbatim>\<open>RangeError\<close> that an object gives.
\<close>

definition to_number :: "jsval \<Rightarrow> int option" where
  "to_number v =
     (case v of
        Null \<Rightarrow> Some 0
      | Bool b \<Rightarrow> Some (if b then 1 else 0)
      | Num n \<Rightarrow> Some n
      | Str s \<Rightarrow> map_option int (decimal_value 0 s)
      | _ \<Rightarrow> None)"

definition set_length :: "jsval list \<Rightarrow> props \<Rightarrow> jsval \<Rightarrow> exn + jsval" where
  "set_length xs ps v =
     (case to_number v of
        Some n \<Rightarrow>
          if 0 \<le> n \<and> n < 4294967296
          then Inr (Arr (take (nat n) xs @ replicate (nat n - length xs) Undefined) ps)
          else Inl RangeError
      | None \<Rightarrow> Inl RangeError)"

subsection \<open>Reading and writing a property by a string key\<close>

text \<open>
  A read from \<^verbatim>\<open>null\<close> or \<^verbatim>\<open>undefined\<close> throws, and so does a write to them. A write to a
  property of a boolean, a number or a string throws as well, in strict mode, but for
  \<^verbatim>\<open>__proto__\<close>, which the inherited accessor takes and ignores.
\<close>

fun js_get :: "jsval \<Rightarrow> string \<Rightarrow> exn + jsval" where
  "js_get Undefined k = Inl TypeError"
| "js_get Null k = Inl TypeError"
| "js_get (Bool b) k = Inr Undefined"
| "js_get (Num n) k = Inr Undefined"
| "js_get (Str s) k =
     Inr (if k = ''length'' then Num (int (length s))
          else (case array_index k of
                  Some i \<Rightarrow> if i < length s then Str [s ! i] else Undefined
                | None \<Rightarrow> Undefined))"
| "js_get (Arr xs ps) k =
     Inr (if k = ''length'' then Num (int (length xs))
          else (case array_index k of
                  Some i \<Rightarrow> load_elem xs i
                | None \<Rightarrow> (case map_of ps k of Some v \<Rightarrow> v | None \<Rightarrow> Undefined)))"
| "js_get (Obj ps) k = Inr (case map_of ps k of Some v \<Rightarrow> v | None \<Rightarrow> Undefined)"

fun js_set :: "jsval \<Rightarrow> string \<Rightarrow> jsval \<Rightarrow> exn + jsval" where
  "js_set (Arr xs ps) k v =
     (if k = ''length'' then set_length xs ps v
      else (case array_index k of
              Some i \<Rightarrow> Inr (Arr (store_elem xs i v) ps)
            | None \<Rightarrow> Inr (Arr xs (assign_prop k v ps))))"
| "js_set (Obj ps) k v = Inr (Obj (assign_prop k v ps))"
| "js_set Undefined k v = Inl TypeError"
| "js_set Null k v = Inl TypeError"
| "js_set cur k v = (if k = ''__proto__'' then Inr cur else Inl TypeError)"

text \<open>
  The cursor of \<^verbatim>\<open>setValueAtPath\<close> refers to a child that lives inside its parent. The
  model passes values, so after the child has been changed the parent is rebuilt with
  the changed child in the child's place. A primitive has no child that can change.
\<close>

fun put_back :: "jsval \<Rightarrow> string \<Rightarrow> jsval \<Rightarrow> jsval" where
  "put_back (Obj ps) k c = Obj (upd_prop k c ps)"
| "put_back (Arr xs ps) k c =
     (case array_index k of
        Some i \<Rightarrow> Arr (xs[i := c]) ps
      | None \<Rightarrow> Arr xs (upd_prop k c ps))"
| "put_back cur k c = cur"

section \<open>The path mutator\<close>

text \<open>
  \<^verbatim>\<open>setValueAtPath\<close>, lines 47 to 72, for a path that is not empty. \<open>walk cur seg rest\<close>
  runs the loop from the cursor \<open>cur\<close> on the segment \<open>seg\<close>; when no segment is left
  after \<open>seg\<close> it is the last one and the value is assigned. The result is what the
  function returns, \<^verbatim>\<open>true\<close> or \<^verbatim>\<open>false\<close>, or what it throws, together with the value
  the cursor refers to afterwards.
\<close>

fun walk :: "jsval \<Rightarrow> seg \<Rightarrow> seg list \<Rightarrow> jsval \<Rightarrow> (exn + bool) \<times> jsval" where
  "walk cur (SegNum n) [] val =
     (case cur of
        Arr xs ps \<Rightarrow> (Inr True, store_number xs ps n val)
      | _ \<Rightarrow> (Inr False, cur))"
| "walk cur (SegStr k) [] val =
     (case js_set cur k val of
        Inl e \<Rightarrow> (Inl e, cur)
      | Inr cur' \<Rightarrow> (Inr True, cur'))"
| "walk cur (SegNum n) (next # rest) val =
     (case cur of
        Arr xs ps \<Rightarrow>
          if load_number xs ps n = Undefined then (Inr False, cur)
          else (case walk (load_number xs ps n) next rest val of
                  (r, c) \<Rightarrow> (r, put_back_number xs ps n c))
      | _ \<Rightarrow> (Inr False, cur))"
| "walk cur (SegStr k) (next # rest) val =
     (case js_get cur k of
        Inl e \<Rightarrow> (Inl e, cur)
      | Inr old \<Rightarrow>
          (case (if old = Undefined then js_set cur k (Obj []) else Inr cur) of
             Inl e \<Rightarrow> (Inl e, cur)
           | Inr cur' \<Rightarrow>
               (case js_get cur' k of
                  Inl e \<Rightarrow> (Inl e, cur')
                | Inr child \<Rightarrow>
                    if child = Undefined then (Inr False, cur')
                    else (case walk child next rest val of
                            (r, c) \<Rightarrow> (r, put_back cur' k c)))))"

text \<open>
  The whole function. A missing or empty path returns the value itself and touches
  nothing; otherwise the boolean of the walk is returned. The second component is the
  object \<open>obj\<close> as the caller sees it after the call.
\<close>

definition setValueAtPath :: "jsval \<Rightarrow> seg list option \<Rightarrow> jsval \<Rightarrow> (exn + jsval) \<times> jsval" where
  "setValueAtPath obj path val =
     (case path of
        None \<Rightarrow> (Inr val, obj)
      | Some [] \<Rightarrow> (Inr val, obj)
      | Some (seg # rest) \<Rightarrow>
          (case walk obj seg rest val of
             (Inl e, obj') \<Rightarrow> (Inl e, obj')
           | (Inr b, obj') \<Rightarrow> (Inr (Bool b), obj')))"

section \<open>The host's JSON functions\<close>

text \<open>
  \<^verbatim>\<open>JSON.parse\<close>, \<^verbatim>\<open>JSON.stringify(v, null, 2)\<close>, the conversion of a number to a string
  and the messages of the host's own exceptions belong to the host, not to the
  repository: the editor is modelled for any of them. \<open>json_parse\<close> yields \<open>Inl m\<close> when
  the host throws a \<^verbatim>\<open>SyntaxError\<close> with message \<open>m\<close>. \<^verbatim>\<open>JSON.stringify\<close> does not throw
  on what \<^verbatim>\<open>JSON.parse\<close> returns nor on an object of scalars, which is all it is given
  here, so \<open>json_stringify\<close> is total and the handler of lines 101 to 104 has nothing to
  catch.
\<close>

record host =
  json_parse :: "string \<Rightarrow> string + jsval"
  json_stringify :: "jsval \<Rightarrow> string"
  number_to_string :: "int \<Rightarrow> string"
  exn_message :: "exn \<Rightarrow> string"

fun join_comma :: "string list \<Rightarrow> string" where
  "join_comma [] = []"
| "join_comma [s] = s"
| "join_comma (s # t # ss) = s @ '','' @ join_comma (t # ss)"

text \<open>The conversion a template literal applies, \<^verbatim>\<open>`${v}`\<close>: a string is taken as it
  is, without quotes.\<close>

fun toString :: "host \<Rightarrow> jsval \<Rightarrow> string" where
  "toString h Undefined = ''undefined''"
| "toString h Null = ''null''"
| "toString h (Bool b) = (if b then ''true'' else ''false'')"
| "toString h (Num n) = number_to_string h n"
| "toString h (Str s) = s"
| "toString h (Arr xs ps) =
     join_comma (map (\<lambda>x. if x = Undefined \<or> x = Null then [] else toString h x) xs)"
| "toString h (Obj ps) = ''[object Object]''"

text \<open>What \<^verbatim>\<open>!v\<close> negates.\<close>

fun truthy :: "jsval \<Rightarrow> bool" where
  "truthy Undefined = False"
| "truthy Null = False"
| "truthy (Bool b) = b"
| "truthy (Num n) = (n \<noteq> 0)"
| "truthy (Str s) = (s \<noteq> [])"
| "truthy (Arr xs ps) = True"
| "truthy (Obj ps) = True"

section \<open>The projector\<close>

text \<open>
  Modelled from the spec: the declaration of \<^verbatim>\<open>NodeData\<close> in \<^verbatim>\<open>types/graph\<close> is not
  among the sources. A row has an optional key, a scalar value and one of six types; a
  node has an identifier, its rows and an optional path.
\<close>

datatype rowtype = TString | TNumber | TBoolean | TNull | TArray | TObject

record row =
  row_key :: "string option"
  row_value :: jsval
  row_type :: rowtype

record node =
  node_id :: string
  node_text :: "row list"
  node_path :: "seg list option"

text \<open>\<^verbatim>\<open>row.key\<close> as a condition: a key that is missing or empty is falsy.\<close>

definition key_truthy :: "string option \<Rightarrow> bool" where
  "key_truthy k = (case k of None \<Rightarrow> False | Some s \<Rightarrow> s \<noteq> [])"

text \<open>The body of the \<^verbatim>\<open>forEach\<close>, lines 16 to 20, on \<^verbatim>\<open>obj\<close>: its own properties, and
  whether its prototype is still the standard one.\<close>

definition put_row :: "bool \<times> props \<Rightarrow> row \<Rightarrow> bool \<times> props" where
  "put_row obj r =
     (if row_type r \<noteq> TArray \<and> row_type r \<noteq> TObject
      then (case row_key r of
              None \<Rightarrow> obj
            | Some k \<Rightarrow>
                if k \<noteq> [] then assign_own (fst obj) k (row_value r) (snd obj) else obj)
      else obj)"

text \<open>\<^verbatim>\<open>normalizeNodeData\<close>, lines 11 to 22. Its callers pass \<^verbatim>\<open>nodeData?.text ?? []\<close>, so
  the rows are never missing.\<close>

definition normalizeNodeData :: "host \<Rightarrow> row list \<Rightarrow> string" where
  "normalizeNodeData h nodeRows =
     (if nodeRows = [] then ''{}''
      else if length nodeRows = 1 \<and> \<not> key_truthy (row_key (hd nodeRows))
      then toString h (row_value (hd nodeRows))
      else json_stringify h (Obj (snd (foldl put_row (True, []) nodeRows))))"

section \<open>The editor\<close>

text \<open>The four \<^verbatim>\<open>useState\<close> cells of the component, lines 33 to 36.\<close>

record editor =
  editValue :: string
  displayContent :: string
  error :: "string option"
  isEditing :: bool

text \<open>\<^verbatim>\<open>nodeData?.text ?? []\<close>; the selected node may be missing.\<close>

definition rows_of :: "node option \<Rightarrow> row list" where
  "rows_of nodeData = (case nodeData of None \<Rightarrow> [] | Some n \<Rightarrow> node_text n)"

text \<open>\<^verbatim>\<open>nodeData?.path\<close>, with a missing path read as the empty one: line 83 sends both
  the same way.\<close>

definition path_of :: "node option \<Rightarrow> seg list" where
  "path_of nodeData =
     (case nodeData of
        None \<Rightarrow> []
      | Some n \<Rightarrow> (case node_path n of None \<Rightarrow> [] | Some p \<Rightarrow> p))"

text \<open>The initial state, and the effect of lines 38 to 44 that runs when the identity
  or the rows of the selected node change.\<close>

definition reset :: "host \<Rightarrow> node option \<Rightarrow> editor" where
  "reset h nodeData =
     \<lparr>editValue = normalizeNodeData h (rows_of nodeData),
      displayContent = normalizeNodeData h (rows_of nodeData),
      error = None,
      isEditing = False\<rparr>"

text \<open>
  \<^verbatim>\<open>handleSave\<close>, lines 74 to 108. \<open>json\<close> is what \<^verbatim>\<open>useJson.getState().getJson()\<close>
  returns. The result is the editor after the handler and the list of the contents
  handed to \<^verbatim>\<open>useFile.getState().setContents\<close>. Everything thrown inside the outer
  \<^verbatim>\<open>try\<close> ends in \<open>failed\<close>, the \<^verbatim>\<open>catch\<close> of line 106; the errors thrown there all carry
  a message.
\<close>

definition failed :: "editor \<Rightarrow> string \<Rightarrow> editor \<times> string list" where
  "failed ed m = (ed\<lparr>error := Some m\<rparr>, [])"

definition saved :: "host \<Rightarrow> editor \<Rightarrow> jsval \<Rightarrow> jsval \<Rightarrow> editor \<times> string list" where
  "saved h ed parsed doc =
     (ed\<lparr>error := None, isEditing := False, displayContent := json_stringify h parsed\<rparr>,
      [json_stringify h doc])"

definition handleSave :: "host \<Rightarrow> node option \<Rightarrow> string \<Rightarrow> editor \<Rightarrow> editor \<times> string list" where
  "handleSave h nodeData json ed =
     (case json_parse h (editValue ed) of
        Inl m \<Rightarrow> failed ed m
      | Inr parsed \<Rightarrow>
          (case json_parse h json of
             Inl m \<Rightarrow> failed ed m
           | Inr rootJson \<Rightarrow>
               (case path_of nodeData of
                  [] \<Rightarrow> saved h ed parsed parsed
                | seg # rest \<Rightarrow>
                    (case setValueAtPath rootJson (Some (seg # rest)) parsed of
                       (Inl e, rootJson') \<Rightarrow> failed ed (exn_message h e)
                     | (Inr success, rootJson') \<Rightarrow>
                         if \<not> truthy success
                         then failed ed ''Failed to update value at path''
                         else saved h ed parsed rootJson'))))"

text \<open>\<^verbatim>\<open>handleCancel\<close>, lines 110 to 115.\<close>

definition handleCancel :: "host \<Rightarrow> node option \<Rightarrow> editor \<Rightarrow> editor" where
  "handleCancel h nodeData ed =
     ed\<lparr>editValue := normalizeNodeData h (rows_of nodeData), error := None, isEditing := False\<rparr>"

text \<open>\<^verbatim>\<open>handleClose\<close>, lines 117 to 123; \<^verbatim>\<open>onClose\<close> belongs to the caller.\<close>

definition handleClose :: "host \<Rightarrow> node option \<Rightarrow> editor \<Rightarrow> editor" where
  "handleClose h nodeData ed = (if isEditing ed then handleCancel h nodeData ed else ed)"

subsection \<open>The editor among its collaborators\<close>

text \<open>
  The component together with what it reads and writes: the selected node of the graph
  store, the document of the JSON store, and the contents handed to the file store so
  far. An event is a click on one of the controls that the component renders in its
  current mode (lines 141 to 154 and 171 to 180), a request to close the modal, or a
  change made by a collaborator.
\<close>

record world =
  ed :: editor
  selected :: "node option"
  stored :: string
  written :: "string list"

datatype event =
    StartEdit
  | Typed string
  | Save
  | Cancel
  | Close
  | SelectNode "node option" bool
  | StoreChanged string

definition init :: "host \<Rightarrow> node option \<Rightarrow> string \<Rightarrow> world" where
  "init h nodeData json =
     \<lparr>ed = reset h nodeData, selected = nodeData, stored = json, written = []\<rparr>"

text \<open>
  The effect of lines 38 to 44 runs when \<^verbatim>\<open>nodeData?.id\<close> or \<^verbatim>\<open>nodeData?.text\<close> changes,
  and the host compares the rows by identity: rows that differ are another array, rows
  that are equal may or may not be. \<open>SelectNode n fresh\<close> is a change of the selected node
  to \<open>n\<close>, and \<open>fresh\<close> tells whether its rows are another array than the old ones.
\<close>

definition effect_runs :: "bool \<Rightarrow> node option \<Rightarrow> node option \<Rightarrow> bool" where
  "effect_runs fresh old new =
     (fresh \<or> \<not> (map_option node_id old = map_option node_id new \<and>
                     map_option node_text old = map_option node_text new))"

text \<open>\<open>step\<close> is \<open>None\<close> when the control of the event is not rendered.\<close>

fun step :: "host \<Rightarrow> event \<Rightarrow> world \<Rightarrow> world option" where
  "step h StartEdit w =
     (if isEditing (ed w) then None else Some (w\<lparr>ed := (ed w)\<lparr>isEditing := True\<rparr>\<rparr>))"
| "step h (Typed s) w =
     (if isEditing (ed w) then Some (w\<lparr>ed := (ed w)\<lparr>editValue := s\<rparr>\<rparr>) else None)"
| "step h Save w =
     (if isEditing (ed w)
      then (case handleSave h (selected w) (stored w) (ed w) of
              (e, cs) \<Rightarrow> Some (w\<lparr>ed := e, written := written w @ cs\<rparr>))
      else None)"
| "step h Cancel w =
     (if isEditing (ed w) then Some (w\<lparr>ed := handleCancel h (selected w) (ed w)\<rparr>) else None)"
| "step h Close w = Some (w\<lparr>ed := handleClose h (selected w) (ed w)\<rparr>)"
| "step h (SelectNode n fresh) w =
     (if effect_runs fresh (selected w) n
      then Some (w\<lparr>selected := n, ed := reset h n\<rparr>)
      else Some (w\<lparr>selected := n\<rparr>))"
| "step h (StoreChanged s) w = Some (w\<lparr>stored := s\<rparr>)"

fun exec :: "host \<Rightarrow> world \<Rightarrow> event list \<Rightarrow> world option" where
  "exec h w [] = Some w"
| "exec h w (ev # evs) = (case step h ev w of None \<Rightarrow> None | Some w' \<Rightarrow> exec h w' evs)"

section \<open>Vocabulary of the properties\<close>

text \<open>
  Reading a path back, as the round trip of the specification does: a string segment
  reads an own property of an object, a number segment reads an element of an array
  within its bounds, and anything else does not resolve.
\<close>

fun getAtPath :: "jsval \<Rightarrow> seg list \<Rightarrow> jsval option" where
  "getAtPath v [] = Some v"
| "getAtPath (Obj ps) (SegStr k # rest) =
     (case map_of ps k of None \<Rightarrow> None | Some c \<Rightarrow> getAtPath c rest)"
| "getAtPath (Arr xs ps) (SegNum n # rest) =
     (if n < length xs then getAtPath (xs ! n) rest else None)"
| "getAtPath v (s # rest) = None"

text \<open>
  A path is valid for a document when every segment before the last finds an own
  property of an object or an element of an array within its bounds, and the last
  segment is an index within the bounds of an array or a key of an object. The key may
  be absent, since the assignment creates it; \<^verbatim>\<open>__proto__\<close> is the one key that an
  assignment cannot create.
\<close>

fun resolves :: "jsval \<Rightarrow> seg list \<Rightarrow> bool" where
  "resolves v [] = True"
| "resolves (Obj ps) [SegStr k] = (map_of ps k \<noteq> None \<or> k \<noteq> ''__proto__'')"
| "resolves (Obj ps) (SegStr k # s # rest) =
     (case map_of ps k of None \<Rightarrow> False | Some c \<Rightarrow> resolves c (s # rest))"
| "resolves (Arr xs ps) (SegNum n # rest) = (n < length xs \<and> resolves (xs ! n) rest)"
| "resolves v (s # rest) = False"





text \<open>A save attempt fails when it hands nothing to the file store. \<open>last_save_failed\<close>
  runs a sequence of events and tells whether the most recent save attempt in it
  failed; \<open>f\<close> is the answer before the first event.\<close>

definition save_fails :: "host \<Rightarrow> world \<Rightarrow> bool" where
  "save_fails h w = (snd (handleSave h (selected w) (stored w) (ed w)) = [])"

fun last_save_failed :: "host \<Rightarrow> bool \<Rightarrow> world \<Rightarrow> event list \<Rightarrow> bool" where
  "last_save_failed h f w [] = f"
| "last_save_failed h f w (ev # evs) =
     (case step h ev w of
        None \<Rightarrow> f
      | Some w' \<Rightarrow> last_save_failed h (if ev = Save then save_fails h w else f) w' evs)"

definition error_inv :: "bool \<Rightarrow> world \<Rightarrow> bool" where
  "error_inv f w = (error (ed w) = None \<or> (isEditing (ed w) \<and> f))"

subsection \<open>A host to run examples on\<close>

text \<open>
  \<open>pretty 0\<close> prints as \<^verbatim>\<open>JSON.stringify(v, null, 2)\<close> does on integers, on strings that
  need no escape and on the arrays and objects built from them. \<open>example_parse\<close> reads
  back the texts of a few documents and rejects every other text.
\<close>

definition int_text :: "int \<Rightarrow> string" where
  "int_text n = (if n < 0 then CHR ''-'' # decimal (nat (- n)) else decimal (nat n))"

definition quoted :: "string \<Rightarrow> string" where
  "quoted s = [CHR 0x22] @ s @ [CHR 0x22]"

fun join_lines :: "string list \<Rightarrow> string" where
  "join_lines [] = []"
| "join_lines [s] = s"
| "join_lines (s # t # ss) = s @ [CHR '','', CHR 0x0A] @ join_lines (t # ss)"

fun pretty :: "nat \<Rightarrow> jsval \<Rightarrow> string" where
  "pretty ind Undefined = ''null''"
| "pretty ind Null = ''null''"
| "pretty ind (Bool b) = (if b then ''true'' else ''false'')"
| "pretty ind (Num n) = int_text n"
| "pretty ind (Str s) = quoted s"
| "pretty ind (Arr xs ps) =
     (if xs = [] then ''[]''
      else ''['' @ [CHR 0x0A] @
           join_lines (map (\<lambda>x. replicate (ind + 2) CHR '' '' @ pretty (ind + 2) x) xs) @
           [CHR 0x0A] @ replicate ind CHR '' '' @ '']'')"
| "pretty ind (Obj ps) =
     (if filter (\<lambda>p. snd p \<noteq> Undefined) ps = [] then ''{}''
      else ''{'' @ [CHR 0x0A] @
           join_lines (map (\<lambda>p. replicate (ind + 2) CHR '' '' @ quoted (fst p) @ '': '' @
                                 pretty (ind + 2) (snd p))
                          (filter (\<lambda>p. snd p \<noteq> Undefined) ps)) @
           [CHR 0x0A] @ replicate ind CHR '' '' @ ''}'')"

definition example_parse :: "string \<Rightarrow> string + jsval" where
  "example_parse s =
     (case find (\<lambda>v. pretty 0 v = s)
             [Num 1, Num 2, Num 3, Obj [], Obj [(''a'', Num 1)]] of
        None \<Rightarrow> Inl ''Unexpected token''
      | Some v \<Rightarrow> Inr v)"

definition example_host :: host where
  "example_host =
     \<lparr>json_parse = example_parse,
      json_stringify = pretty 0,
      number_to_string = int_text,
      exn_message = (\<lambda>e. case e of TypeError \<Rightarrow> ''TypeError'' | RangeError \<Rightarrow> ''RangeError'')\<rparr>"

text \<open>A node that is a bare number, at the root of the document.\<close>

definition number_node :: node where
  "number_node =
     \<lparr>node_id = ''1'',
      node_text = [\<lparr>row_key = None, row_value = Num 1, row_type = TNumber\<rparr>],
      node_path = Some []\<rparr>"

text \<open>A node that is a bare string, at the root of the document.\<close>

definition string_node :: node where
  "string_node =
     \<lparr>node_id = ''1'',
      node_text = [\<lparr>row_key = None, row_value = Str ''hello'', row_type = TString\<rparr>],
      node_path = Some []\<rparr>"

text \<open>A node below the key \<^verbatim>\<open>a\<close> of the document.\<close>

definition child_node :: "seg list \<Rightarrow> node" where
  "child_node p =
     \<lparr>node_id = ''2'',
      node_text = [\<lparr>row_key = None, row_value = Num 1, row_type = TNumber\<rparr>],
      node_path = Some p\<rparr>"

text \<open>Editors in the middle of an edit, for the examples: one whose text is the number
  2, one whose text is not JSON.\<close>

definition editing_two :: editor where
  "editing_two =
     \<lparr>editValue = ''2'', displayContent = ''1'', error = Some ''Unexpected token'',
      isEditing = True\<rparr>"

definition editing_brace :: editor where
  "editing_brace =
     \<lparr>editValue = ''{'', displayContent = ''1'', error = None, isEditing = True\<rparr>"

definition invalid_world :: world where
  "invalid_world =
     \<lparr>ed = editing_brace, selected = Some number_node, stored = ''1'', written = []\<rparr>"

text \<open>A world in which the walk of a save fails after it has created an object.\<close>

definition failing_world :: world where
  "failing_world =
     \<lparr>ed = \<lparr>editValue = ''2'', displayContent = ''1'', error = None, isEditing = True\<rparr>,
      selected = Some (child_node [SegStr ''a'', SegNum 0, SegStr ''b'']),
      stored = ''{}'',
      written = []\<rparr>"

section \<open>Properties of the path mutator\<close>

lemma map_of_upd_prop:
  "map_of (upd_prop k v ps) k' =
     (if k' = k \<and> map_of ps k \<noteq> None then Some v else map_of ps k')"
  by (induction ps) auto

lemma getAtPath_cons_not_undefined:
  "getAtPath c (s # rest) = Some old \<Longrightarrow> c \<noteq> Undefined"
  by auto

lemma getAtPath_ObjE:
  assumes "getAtPath cur (SegStr k # rest) = Some old"
  obtains ps c where "cur = Obj ps" "map_of ps k = Some c" "getAtPath c rest = Some old"
  using assms by (cases cur) (auto split: option.splits)

lemma getAtPath_ArrE:
  assumes "getAtPath cur (SegNum n # rest) = Some old"
  obtains xs ps where "cur = Arr xs ps" "n < length xs" "getAtPath (xs ! n) rest = Some old"
  using assms by (cases cur) (auto split: if_splits)

lemma getAtPath_append:
  "getAtPath v (p @ q) = (case getAtPath v p of None \<Rightarrow> None | Some c \<Rightarrow> getAtPath c q)"
  by (induction v p rule: getAtPath.induct) (auto split: option.splits)

lemma store_elem_nth: "n < length (store_elem xs n v) \<and> store_elem xs n v ! n = v"
  by (simp add: store_elem_def nth_append)

lemma setValueAtPath_nonempty:
  "setValueAtPath obj (Some (seg # rest)) val =
     (case walk obj seg rest val of
        (Inl e, obj') \<Rightarrow> (Inl e, obj')
      | (Inr b, obj') \<Rightarrow> (Inr (Bool b), obj'))"
  by (simp add: setValueAtPath_def)

lemma map_of_insert_index:
  "map_of ps k = None \<Longrightarrow> array_index k = Some i \<Longrightarrow> map_of (insert_index i k v ps) k = Some v"
  by (induction ps) (auto split: option.splits)

lemma map_of_assign_prop:
  "map_of ps k \<noteq> None \<or> k \<noteq> ''__proto__'' \<Longrightarrow> map_of (assign_prop k v ps) k = Some v"
  by (auto simp: assign_prop_def add_prop_def map_of_upd_prop map_of_insert_index map_add_def
      split: option.splits)

lemma resolves_ObjE:
  assumes "resolves cur (SegStr k # s # rest)"
  obtains ps c where "cur = Obj ps" "map_of ps k = Some c" "resolves c (s # rest)"
  using assms by (cases cur) (auto split: option.splits)

lemma resolves_ArrE:
  assumes "resolves cur (SegNum n # rest)"
  obtains xs ps where "cur = Arr xs ps" "n < length xs" "resolves (xs ! n) rest"
  using assms by (cases cur) auto

lemma resolves_cons_not_undefined: "resolves c (s # rest) \<Longrightarrow> c \<noteq> Undefined"
  by auto

text \<open>A valid path is walked without a failure and without a new object on the way, and
  the value ends up where the path points.\<close>

lemma walk_resolves:
  "resolves cur (seg # rest) \<Longrightarrow>
     fst (walk cur seg rest val) = Inr True \<and>
     getAtPath (snd (walk cur seg rest val)) (seg # rest) = Some val"
proof (induction rest arbitrary: cur seg)
  case Nil
  show ?case
  proof (cases seg)
    case (SegNum n)
    with Nil obtain xs ps where "cur = Arr xs ps" "n < length xs"
      by (auto elim: resolves_ArrE)
    with SegNum show ?thesis by (simp add: store_number_def store_elem_def)
  next
    case (SegStr k)
    with Nil obtain ps where "cur = Obj ps" "map_of ps k \<noteq> None \<or> k \<noteq> ''__proto__''"
      by (cases cur) auto
    with SegStr show ?thesis by (simp add: map_of_assign_prop)
  qed
next
  case (Cons nxt rest)
  show ?case
  proof (cases seg)
    case (SegNum n)
    with Cons.prems obtain xs ps where cur: "cur = Arr xs ps" "n < length xs"
      and sub: "resolves (xs ! n) (nxt # rest)"
      by (auto elim: resolves_ArrE)
    from sub have ne: "xs ! n \<noteq> Undefined" by (rule resolves_cons_not_undefined)
    from Cons.IH[OF sub] cur ne SegNum show ?thesis
      by (auto simp: load_number_def put_back_number_def split: prod.splits)
  next
    case (SegStr k)
    with Cons.prems obtain ps c where cur: "cur = Obj ps" "map_of ps k = Some c"
      and sub: "resolves c (nxt # rest)"
      by (auto elim: resolves_ObjE)
    from sub have ne: "c \<noteq> Undefined" by (rule resolves_cons_not_undefined)
    from Cons.IH[OF sub] cur ne SegStr show ?thesis
      by (auto simp: map_of_upd_prop split: prod.splits)
  qed
qed

text \<open>When the segments before the last one resolve to an array, a last segment that
  is a number is stored, whatever the number.\<close>

lemma walk_final_index:
  "getAtPath cur pre = Some (Arr xs ps) \<Longrightarrow> pre @ [SegNum n] = seg # rest \<Longrightarrow>
     fst (walk cur seg rest val) = Inr True \<and>
     getAtPath (snd (walk cur seg rest val)) pre = Some (store_number xs ps n val)"
proof (induction pre arbitrary: cur seg rest)
  case Nil
  then show ?case by auto
next
  case (Cons s pre)
  from Cons.prems(2) have seg: "seg = s" and rest: "rest = pre @ [SegNum n]" by simp_all
  obtain nxt rest' where nr: "pre @ [SegNum n] = nxt # rest'"
    by (cases "pre @ [SegNum n]") auto
  show ?case
  proof (cases s)
    case (SegNum m)
    with Cons.prems(1) obtain ys qs where cur: "cur = Arr ys qs" "m < length ys"
      and sub: "getAtPath (ys ! m) pre = Some (Arr xs ps)"
      by (auto elim: getAtPath_ArrE)
    have ne: "ys ! m \<noteq> Undefined" using sub by (cases pre) auto
    from Cons.IH[OF sub nr] cur ne SegNum seg rest nr show ?thesis
      by (auto simp: load_number_def put_back_number_def split: prod.splits)
  next
    case (SegStr k)
    with Cons.prems(1) obtain qs c where cur: "cur = Obj qs" "map_of qs k = Some c"
      and sub: "getAtPath c pre = Some (Arr xs ps)"
      by (auto elim: getAtPath_ObjE)
    have ne: "c \<noteq> Undefined" using sub by (cases pre) auto
    from Cons.IH[OF sub nr] cur ne SegStr seg rest nr show ?thesis
      by (auto simp: map_of_upd_prop split: prod.splits)
  qed
qed

lemmas path_simps =
  setValueAtPath_def array_index_def digit_of_def assign_prop_def add_prop_def
  store_elem_def load_elem_def store_number_def load_number_def put_back_number_def

text \<open>
  C1. The specification lets a string segment fail whenever the cursor is not an object.
  The code has no such check on a string segment. On a primitive the assignment throws,
  so the call does fail; on an array it does not: the key becomes a named property of
  the array and the call returns \<^verbatim>\<open>true\<close>, at the last segment as well as on the way.
\<close>

theorem string_segment_on_array_succeeds:
  "setValueAtPath (Arr [Num 1, Num 2] []) (Some [SegStr ''a'']) (Num 5) =
     (Inr (Bool True), Arr [Num 1, Num 2] [(''a'', Num 5)]) \<and>
   setValueAtPath (Arr [] []) (Some [SegStr ''a'', SegStr ''b'']) (Num 5) =
     (Inr (Bool True), Arr [] [(''a'', Obj [(''b'', Num 5)])])"
  by (simp add: path_simps)

text \<open>The example of the specification, \<^verbatim>\<open>setAtPath({a:1}, ["a","b"], 2)\<close>, fails: the
  assignment to a property of the number throws.\<close>

lemma string_segment_on_number_throws:
  "setValueAtPath (Obj [(''a'', Num 1)]) (Some [SegStr ''a'', SegStr ''b'']) (Num 2) =
     (Inl TypeError, Obj [(''a'', Num 1)])"
  by (simp add: path_simps)

text \<open>On any array a key that is neither an index nor \<^verbatim>\<open>length\<close> is assigned, and on any
  primitive the assignment of a key other than \<^verbatim>\<open>__proto__\<close> throws.\<close>

lemma string_segment_on_any_array:
  "array_index k = None \<Longrightarrow> k \<noteq> ''length'' \<Longrightarrow>
     setValueAtPath (Arr xs ps) (Some [SegStr k]) val =
       (Inr (Bool True), Arr xs (assign_prop k val ps))"
  by (simp add: setValueAtPath_def)

lemma string_segment_on_primitive:
  "cur \<in> {Null, Bool b, Num n, Str s} \<Longrightarrow> k \<noteq> ''__proto__'' \<Longrightarrow>
     setValueAtPath cur (Some [SegStr k]) val = (Inl TypeError, cur)"
  by (auto simp: setValueAtPath_def)

text \<open>
  C2, as the claim states it, fails: a walk that fails after it has created an object
  leaves that object in the root it was given. Here the walk creates \<^verbatim>\<open>a\<close>, finds that
  the new object is not an array, and returns \<^verbatim>\<open>false\<close>.
\<close>

theorem failed_walk_leaves_vivified_object:
  "setValueAtPath (Obj []) (Some [SegStr ''a'', SegNum 0, SegStr ''b'']) (Num 2) =
     (Inr (Bool False), Obj [(''a'', Obj [])])"
  by (simp add: path_simps)

text \<open>
  C3, as the claim states it, fails: index 5 of an array of length 1 is stored, and the
  array grows to length 6 with holes in between.
\<close>

theorem final_index_beyond_length_succeeds:
  "setValueAtPath (Arr [Num 1] []) (Some [SegNum 5]) (Num 9) =
     (Inr (Bool True), Arr [Num 1, Undefined, Undefined, Undefined, Undefined, Num 9] [])"
proof -
  have "store_elem [Num 1] 5 (Num 9) =
          [Num 1, Undefined, Undefined, Undefined, Undefined, Num 9]"
    by (simp add: store_elem_def numeral_eq_Suc)
  then show ?thesis by (simp add: setValueAtPath_def store_number_def)
qed

text \<open>
  C3, amended. When the segments before the last resolve to an array and the last
  segment is a number below \<open>2\<^sup>3\<^sup>2 - 1\<close>, the limit of the host on array indices,
  the call returns \<^verbatim>\<open>true\<close> whatever the index: an index within the array overwrites
  the element, an index at or beyond the length extends the array (see \<open>store_elem\<close>),
  and the value is read back at the path.
\<close>

theorem final_index_on_array:
  assumes "getAtPath root pre = Some (Arr xs ps)" and "n < 4294967295"
  shows "fst (setValueAtPath root (Some (pre @ [SegNum n])) val) = Inr (Bool True) \<and>
         getAtPath (snd (setValueAtPath root (Some (pre @ [SegNum n])) val)) pre =
           Some (Arr (store_elem xs n val) ps) \<and>
         getAtPath (snd (setValueAtPath root (Some (pre @ [SegNum n])) val)) (pre @ [SegNum n]) =
           Some val"
proof -
  obtain seg rest where sr: "pre @ [SegNum n] = seg # rest"
    by (cases "pre @ [SegNum n]") auto
  obtain r root' where w: "walk root seg rest val = (r, root')"
    by (cases "walk root seg rest val")
  from walk_final_index[OF assms(1) sr, of val] w assms(2)
  have r: "r = Inr True" and g: "getAtPath root' pre = Some (Arr (store_elem xs n val) ps)"
    by (simp_all add: store_number_def)
  from sr w r have s: "setValueAtPath root (Some (pre @ [SegNum n])) val = (Inr (Bool True), root')"
    by (simp add: setValueAtPath_nonempty)
  from g have "getAtPath root' (pre @ [SegNum n]) = Some val"
    by (simp add: getAtPath_append store_elem_nth)
  with s g show ?thesis by simp
qed

theorem final_index_on_array_witness:
  "getAtPath (Obj [(''a'', Arr [Num 1] [])]) [SegStr ''a''] = Some (Arr [Num 1] []) \<and>
   (3::nat) < 4294967295 \<and>
   fst (setValueAtPath (Obj [(''a'', Arr [Num 1] [])]) (Some [SegStr ''a'', SegNum 3]) (Num 9))
     = Inr (Bool True) \<and>
   getAtPath (snd (setValueAtPath (Obj [(''a'', Arr [Num 1] [])])
                     (Some [SegStr ''a'', SegNum 3]) (Num 9))) [SegStr ''a''] =
     Some (Arr [Num 1, Undefined, Undefined, Num 9] [])"
proof -
  have h: "getAtPath (Obj [(''a'', Arr [Num 1] [])]) [SegStr ''a''] = Some (Arr [Num 1] [])"
    by simp
  have b: "(3::nat) < 4294967295" by simp
  have e: "store_elem [Num 1] 3 (Num 9) = [Num 1, Undefined, Undefined, Num 9]"
    by (simp add: store_elem_def numeral_eq_Suc)
  from final_index_on_array[OF h b, of "Num 9"] h e show ?thesis by simp
qed

text \<open>From the limit on, the number names a property: the call still returns \<^verbatim>\<open>true\<close>,
  and the array keeps its elements and its length.\<close>

lemma final_index_at_the_limit:
  "length xs \<le> n \<Longrightarrow> 4294967295 \<le> n \<Longrightarrow>
     setValueAtPath (Arr xs ps) (Some [SegNum n]) val =
       (Inr (Bool True), Arr xs (assign_prop (decimal n) val ps))"
  by (simp add: setValueAtPath_def store_number_def)

text \<open>
  C4. For a path that is valid for the document (objects at string segments, arrays with
  the index in bounds at number segments), the call succeeds and reading the same path
  from the resulting document yields the value. For the empty path the resulting
  document is the returned value itself; otherwise it is the given object after the call.
\<close>

theorem setValueAtPath_round_trip:
  assumes "resolves root path"
  shows "case path of
           [] \<Rightarrow> setValueAtPath root (Some path) val = (Inr val, root) \<and>
                 getAtPath val path = Some val
         | seg # rest \<Rightarrow>
             fst (setValueAtPath root (Some path) val) = Inr (Bool True) \<and>
             getAtPath (snd (setValueAtPath root (Some path) val)) path = Some val"
proof (cases path)
  case Nil
  then show ?thesis by (simp add: setValueAtPath_def)
next
  case (Cons seg rest)
  with assms have "resolves root (seg # rest)" by simp
  from walk_resolves[OF this, of val] Cons show ?thesis
    by (cases "walk root seg rest val") (auto simp: setValueAtPath_def)
qed

theorem setValueAtPath_round_trip_witness:
  "resolves (Obj [(''a'', Arr [Obj [(''b'', Num 1)]] [])]) [SegStr ''a'', SegNum 0, SegStr ''b''] \<and>
   setValueAtPath (Obj [(''a'', Arr [Obj [(''b'', Num 1)]] [])])
       (Some [SegStr ''a'', SegNum 0, SegStr ''b'']) (Num 2) =
     (Inr (Bool True), Obj [(''a'', Arr [Obj [(''b'', Num 2)]] [])]) \<and>
   getAtPath (snd (setValueAtPath (Obj [(''a'', Arr [Obj [(''b'', Num 1)]] [])])
                     (Some [SegStr ''a'', SegNum 0, SegStr ''b'']) (Num 2)))
     [SegStr ''a'', SegNum 0, SegStr ''b''] = Some (Num 2)"
proof -
  have h: "resolves (Obj [(''a'', Arr [Obj [(''b'', Num 1)]] [])]) [SegStr ''a'', SegNum 0, SegStr ''b'']"
    by simp
  have e: "setValueAtPath (Obj [(''a'', Arr [Obj [(''b'', Num 1)]] [])])
       (Some [SegStr ''a'', SegNum 0, SegStr ''b'']) (Num 2) =
     (Inr (Bool True), Obj [(''a'', Arr [Obj [(''b'', Num 2)]] [])])"
    by (simp add: path_simps)
  from setValueAtPath_round_trip[OF h, of "Num 2"] h e show ?thesis by simp
qed

section \<open>Properties of the projector\<close>




lemmas host_simps =
  example_host_def example_parse_def int_text_def quoted_def decimal.simps

lemmas editor_simps =
  normalizeNodeData_def key_truthy_def rows_of_def path_of_def number_node_def child_node_def
  init_def reset_def handleSave_def handleCancel_def handleClose_def saved_def failed_def




text \<open>
  The two cases that the contract leaves out. A single row without a key whose value is
  a string is converted by the template literal of line 13 to the characters of the
  string, without quotes, while line 21 and line 99 write the same value as JSON; and
  \<^verbatim>\<open>!key\<close> takes the empty key of a single row for no key.
\<close>

lemma keyless_string_row_is_not_quoted:
  "normalizeNodeData example_host
     [\<lparr>row_key = None, row_value = Str ''hello'', row_type = TString\<rparr>] = ''hello'' \<and>
   json_stringify example_host (Str ''hello'') = [CHR 0x22] @ ''hello'' @ [CHR 0x22]"
  by (simp add: host_simps editor_simps)

lemma empty_key_row_is_unwrapped:
  "normalizeNodeData example_host
     [\<lparr>row_key = Some [], row_value = Num 1, row_type = TNumber\<rparr>] = ''1''"
  by (simp add: host_simps editor_simps)

text \<open>The unquoted text is what the editor starts from, and line 78 parses it: a save of
  the untouched text of a string node fails.\<close>

lemma save_of_untouched_string_node_fails:
  "exec example_host (init example_host (Some string_node) (json_stringify example_host (Str ''hello'')))
     [StartEdit, Save] =
   Some \<lparr>ed = \<lparr>editValue = ''hello'', displayContent = ''hello'',
                error = Some ''Unexpected token'', isEditing = True\<rparr>,
         selected = Some string_node,
         stored = json_stringify example_host (Str ''hello''),
         written = []\<rparr>"
  by (simp add: host_simps editor_simps string_node_def)

section \<open>Properties of save\<close>

lemma handleSave_cases:
  "(\<exists>m. handleSave h nodeData json e = failed e m) \<or>
   (\<exists>parsed doc. handleSave h nodeData json e = saved h e parsed doc)"
  by (auto simp: handleSave_def split: sum.splits list.splits prod.splits)

lemma setValueAtPath_outcome:
  "p \<noteq> [] \<Longrightarrow> fst (setValueAtPath obj (Some p) val) \<noteq> Inr (Bool True) \<Longrightarrow>
     (\<exists>x. fst (setValueAtPath obj (Some p) val) = Inl x) \<or>
     fst (setValueAtPath obj (Some p) val) = Inr (Bool False)"
  by (cases p) (auto simp: setValueAtPath_def split: prod.splits sum.splits)

lemma handleSave_mutation_failure:
  assumes "json_parse h (editValue e) = Inr parsed" and "json_parse h json = Inr rootJson"
    and "path_of nodeData \<noteq> []"
    and "fst (setValueAtPath rootJson (Some (path_of nodeData)) parsed) \<noteq> Inr (Bool True)"
  shows "\<exists>m. handleSave h nodeData json e = (e\<lparr>error := Some m\<rparr>, [])"
  using setValueAtPath_outcome[OF assms(3,4)] assms(1,2,3)
  by (auto simp: handleSave_def failed_def split: list.splits prod.splits sum.splits)

text \<open>
  C2, amended. The mutator changes the object that it is given, but that object is a
  private copy: save parses it afresh from the text of the JSON store, and when the walk
  fails, by returning \<^verbatim>\<open>false\<close> or by throwing, save hands nothing to the file store.
  Neither store changes; only the error of the editor is set.
\<close>

theorem failed_mutation_writes_nothing:
  assumes "isEditing (ed w)"
    and "json_parse h (editValue (ed w)) = Inr parsed"
    and "json_parse h (stored w) = Inr rootJson"
    and "path_of (selected w) \<noteq> []"
    and "fst (setValueAtPath rootJson (Some (path_of (selected w))) parsed) \<noteq> Inr (Bool True)"
  shows "\<exists>w'. step h Save w = Some w' \<and> stored w' = stored w \<and> written w' = written w \<and>
              selected w' = selected w"
proof -
  from handleSave_mutation_failure[OF assms(2,3,4,5)]
  obtain m where "handleSave h (selected w) (stored w) (ed w) = ((ed w)\<lparr>error := Some m\<rparr>, [])"
    by blast
  with assms(1) show ?thesis by simp
qed

theorem failed_mutation_writes_nothing_witness:
  "isEditing (ed failing_world) \<and>
   json_parse example_host (editValue (ed failing_world)) = Inr (Num 2) \<and>
   json_parse example_host (stored failing_world) = Inr (Obj []) \<and>
   setValueAtPath (Obj []) (Some (path_of (selected failing_world))) (Num 2) =
     (Inr (Bool False), Obj [(''a'', Obj [])]) \<and>
   (\<exists>w'. step example_host Save failing_world = Some w' \<and> stored w' = ''{}'' \<and> written w' = [])"
proof -
  have a: "isEditing (ed failing_world)" by (simp add: failing_world_def)
  have b: "json_parse example_host (editValue (ed failing_world)) = Inr (Num 2)"
    by (simp add: failing_world_def host_simps)
  have c: "json_parse example_host (stored failing_world) = Inr (Obj [])"
    by (simp add: failing_world_def host_simps)
  have p: "path_of (selected failing_world) = [SegStr ''a'', SegNum 0, SegStr ''b'']"
    by (simp add: failing_world_def path_of_def child_node_def)
  have d: "setValueAtPath (Obj []) (Some (path_of (selected failing_world))) (Num 2) =
     (Inr (Bool False), Obj [(''a'', Obj [])])"
    unfolding p by (simp add: path_simps)
  have n: "path_of (selected failing_world) \<noteq> []" unfolding p by simp
  have f: "fst (setValueAtPath (Obj []) (Some (path_of (selected failing_world))) (Num 2)) \<noteq>
     Inr (Bool True)"
    unfolding d by simp
  have s: "stored failing_world = ''{}''" "written failing_world = []"
    by (simp_all add: failing_world_def)
  from failed_mutation_writes_nothing[OF a b c n f] s
  have "\<exists>w'. step example_host Save failing_world = Some w' \<and> stored w' = ''{}'' \<and> written w' = []"
    by (auto simp del: step.simps)
  with a b c d show ?thesis by blast
qed

text \<open>
  C5. When the text of the editor parses, the stored document parses, and either the
  path of the node is empty or the mutator returns \<^verbatim>\<open>true\<close>, save hands exactly one
  content to the file store, the serialised resulting document \<open>doc\<close> (the parsed value
  for an empty path, the mutated root otherwise), leaves editing, shows the
  pretty-printed parsed value and has no error.
\<close>

theorem handleSave_success:
  assumes "json_parse h (editValue e) = Inr parsed"
    and "json_parse h json = Inr rootJson"
    and "(path_of nodeData = [] \<and> doc = parsed) \<or>
         (path_of nodeData \<noteq> [] \<and>
          setValueAtPath rootJson (Some (path_of nodeData)) parsed = (Inr (Bool True), doc))"
  shows "handleSave h nodeData json e =
           (e\<lparr>error := None, isEditing := False, displayContent := json_stringify h parsed\<rparr>,
            [json_stringify h doc])"
  using assms by (auto simp: handleSave_def saved_def split: list.splits)

theorem handleSave_success_witness:
  "json_parse example_host (editValue editing_two) = Inr (Num 2) \<and>
   json_parse example_host (json_stringify example_host (Obj [(''a'', Num 1)])) =
     Inr (Obj [(''a'', Num 1)]) \<and>
   path_of (Some (child_node [SegStr ''a''])) \<noteq> [] \<and>
   setValueAtPath (Obj [(''a'', Num 1)]) (Some (path_of (Some (child_node [SegStr ''a''])))) (Num 2) =
     (Inr (Bool True), Obj [(''a'', Num 2)]) \<and>
   handleSave example_host (Some (child_node [SegStr ''a'']))
       (json_stringify example_host (Obj [(''a'', Num 1)])) editing_two =
     (\<lparr>editValue = ''2'', displayContent = ''2'', error = None, isEditing = False\<rparr>,
      [json_stringify example_host (Obj [(''a'', Num 2)])])"
proof -
  have a: "json_parse example_host (editValue editing_two) = Inr (Num 2)"
    by (simp add: editing_two_def host_simps)
  have b: "json_parse example_host (json_stringify example_host (Obj [(''a'', Num 1)])) =
     Inr (Obj [(''a'', Num 1)])"
    by (simp add: host_simps)
  have p: "path_of (Some (child_node [SegStr ''a''])) = [SegStr ''a'']"
    by (simp add: path_of_def child_node_def)
  have c: "setValueAtPath (Obj [(''a'', Num 1)]) (Some (path_of (Some (child_node [SegStr ''a''])))) (Num 2) =
     (Inr (Bool True), Obj [(''a'', Num 2)])"
    unfolding p by (simp add: path_simps)
  have d: "(path_of (Some (child_node [SegStr ''a''])) = [] \<and> Obj [(''a'', Num 2)] = Num 2) \<or>
     (path_of (Some (child_node [SegStr ''a''])) \<noteq> [] \<and>
      setValueAtPath (Obj [(''a'', Num 1)]) (Some (path_of (Some (child_node [SegStr ''a''])))) (Num 2) =
        (Inr (Bool True), Obj [(''a'', Num 2)]))"
    using c p by simp
  have s: "json_stringify example_host (Num 2) = ''2''"
    by (simp add: host_simps)
  from handleSave_success[OF a b d] a b c p s show ?thesis
    by (simp add: editing_two_def)
qed

text \<open>
  C6. While editing, a save of a text that the parser rejects leaves everything as it
  was but the error, which becomes the message of the parser: the editor stays in
  editing, and nothing is handed to the file store.
\<close>

theorem save_of_invalid_text:
  assumes "isEditing (ed w)" and "json_parse h (editValue (ed w)) = Inl m"
  shows "step h Save w = Some (w\<lparr>ed := (ed w)\<lparr>error := Some m\<rparr>\<rparr>) \<and>
         isEditing ((ed w)\<lparr>error := Some m\<rparr>) \<and>
         written (w\<lparr>ed := (ed w)\<lparr>error := Some m\<rparr>\<rparr>) = written w"
  using assms by (simp add: handleSave_def failed_def)

theorem save_of_invalid_text_witness:
  "isEditing (ed invalid_world) \<and>
   json_parse example_host (editValue (ed invalid_world)) = Inl ''Unexpected token'' \<and>
   step example_host Save invalid_world =
     Some \<lparr>ed = \<lparr>editValue = ''{'', displayContent = ''1'', error = Some ''Unexpected token'',
                  isEditing = True\<rparr>,
           selected = Some number_node, stored = ''1'', written = []\<rparr>"
proof -
  have a: "isEditing (ed invalid_world)"
    by (simp add: invalid_world_def editing_brace_def)
  have b: "json_parse example_host (editValue (ed invalid_world)) = Inl ''Unexpected token''"
    by (simp add: invalid_world_def editing_brace_def host_simps)
  from save_of_invalid_text[OF a b] a b show ?thesis
    by (simp add: invalid_world_def editing_brace_def)
qed

text \<open>
  C10. Whenever save fails, the text of the editor, the displayed content and the mode
  keep their values, nothing is handed to the file store, and the error becomes the
  message of the failure: of the parser for the text of the editor or for the stored
  document, the fixed message when the mutator returns \<^verbatim>\<open>false\<close>, the message of the
  host when the mutator throws.
\<close>

theorem handleSave_failure_frame:
  "(json_parse h (editValue e) = Inl m \<longrightarrow>
      handleSave h nodeData json e = (e\<lparr>error := Some m\<rparr>, [])) \<and>
   (json_parse h (editValue e) = Inr parsed \<and> json_parse h json = Inl m \<longrightarrow>
      handleSave h nodeData json e = (e\<lparr>error := Some m\<rparr>, [])) \<and>
   (json_parse h (editValue e) = Inr parsed \<and> json_parse h json = Inr rootJson \<and>
    path_of nodeData \<noteq> [] \<and>
    fst (setValueAtPath rootJson (Some (path_of nodeData)) parsed) = Inr (Bool False) \<longrightarrow>
      handleSave h nodeData json e =
        (e\<lparr>error := Some ''Failed to update value at path''\<rparr>, [])) \<and>
   (json_parse h (editValue e) = Inr parsed \<and> json_parse h json = Inr rootJson \<and>
    path_of nodeData \<noteq> [] \<and>
    fst (setValueAtPath rootJson (Some (path_of nodeData)) parsed) = Inl x \<longrightarrow>
      handleSave h nodeData json e = (e\<lparr>error := Some (exn_message h x)\<rparr>, []))"
  by (auto simp: handleSave_def failed_def split: list.splits prod.splits sum.splits)

text \<open>The witness takes each of the four failures in turn: a text that does not parse,
  a stored document that does not parse, a walk that returns \<^verbatim>\<open>false\<close>, and the walk
  into a number of the specification's example, which throws.\<close>

theorem handleSave_failure_frame_witness:
  "handleSave example_host (Some number_node) ''1'' editing_brace =
     (editing_brace\<lparr>error := Some ''Unexpected token''\<rparr>, []) \<and>
   handleSave example_host (Some number_node) ''?'' editing_two =
     (editing_two\<lparr>error := Some ''Unexpected token''\<rparr>, []) \<and>
   handleSave example_host (Some (child_node [SegStr ''a'', SegNum 0, SegStr ''b''])) ''{}''
       editing_two =
     (editing_two\<lparr>error := Some ''Failed to update value at path''\<rparr>, []) \<and>
   handleSave example_host (Some (child_node [SegStr ''a'', SegStr ''b'']))
       (json_stringify example_host (Obj [(''a'', Num 1)])) editing_two =
     (editing_two\<lparr>error := Some ''TypeError''\<rparr>, [])"
proof -
  have two: "json_parse example_host (editValue editing_two) = Inr (Num 2)"
    by (simp add: editing_two_def host_simps)
  have brace: "json_parse example_host (editValue editing_brace) = Inl ''Unexpected token''"
    by (simp add: editing_brace_def host_simps)
  have bad: "json_parse example_host ''?'' = Inl ''Unexpected token''"
    by (simp add: host_simps)
  have empty: "json_parse example_host ''{}'' = Inr (Obj [])"
    by (simp add: host_simps)
  have doc: "json_parse example_host (json_stringify example_host (Obj [(''a'', Num 1)])) =
     Inr (Obj [(''a'', Num 1)])"
    by (simp add: host_simps)
  have p3: "path_of (Some (child_node [SegStr ''a'', SegNum 0, SegStr ''b''])) =
     [SegStr ''a'', SegNum 0, SegStr ''b'']"
    by (simp add: path_of_def child_node_def)
  have p4: "path_of (Some (child_node [SegStr ''a'', SegStr ''b''])) = [SegStr ''a'', SegStr ''b'']"
    by (simp add: path_of_def child_node_def)
  have f3: "fst (setValueAtPath (Obj [])
      (Some (path_of (Some (child_node [SegStr ''a'', SegNum 0, SegStr ''b''])))) (Num 2)) =
      Inr (Bool False)"
    unfolding p3 by (simp add: path_simps)
  have f4: "fst (setValueAtPath (Obj [(''a'', Num 1)])
      (Some (path_of (Some (child_node [SegStr ''a'', SegStr ''b''])))) (Num 2)) = Inl TypeError"
    unfolding p4 by (simp add: path_simps)
  have m: "exn_message example_host TypeError = ''TypeError''"
    by (simp add: example_host_def)
  note t = handleSave_failure_frame
  from t[of example_host editing_brace "''Unexpected token''" "Some number_node" "''1''"] brace
  have c1: "handleSave example_host (Some number_node) ''1'' editing_brace =
     (editing_brace\<lparr>error := Some ''Unexpected token''\<rparr>, [])"
    by simp
  from t[of example_host editing_two "''Unexpected token''" "Some number_node" "''?''" "Num 2"] two bad
  have c2: "handleSave example_host (Some number_node) ''?'' editing_two =
     (editing_two\<lparr>error := Some ''Unexpected token''\<rparr>, [])"
    by simp
  from t[of example_host editing_two _ "Some (child_node [SegStr ''a'', SegNum 0, SegStr ''b''])"
           "''{}''" "Num 2" "Obj []"] two empty p3 f3
  have c3: "handleSave example_host (Some (child_node [SegStr ''a'', SegNum 0, SegStr ''b''])) ''{}''
       editing_two = (editing_two\<lparr>error := Some ''Failed to update value at path''\<rparr>, [])"
    by simp
  from t[of example_host editing_two _ "Some (child_node [SegStr ''a'', SegStr ''b''])"
           "json_stringify example_host (Obj [(''a'', Num 1)])" "Num 2" "Obj [(''a'', Num 1)]" TypeError]
       two doc p4 f4 m
  have c4: "handleSave example_host (Some (child_node [SegStr ''a'', SegStr ''b'']))
       (json_stringify example_host (Obj [(''a'', Num 1)])) editing_two =
     (editing_two\<lparr>error := Some ''TypeError''\<rparr>, [])"
    by simp
  from c1 c2 c3 c4 show ?thesis by simp
qed

section \<open>Properties of the editor among its collaborators\<close>

lemma step_error_inv:
  assumes "step h ev w = Some w'" "error_inv f w"
  shows "error_inv (if ev = Save then save_fails h w else f) w'"
proof (cases ev)
  case Save
  with assms(1) have ed: "isEditing (ed w)" by (simp split: if_splits)
  from handleSave_cases[of h "selected w" "stored w" "ed w"] show ?thesis
  proof (elim disjE exE)
    fix m assume "handleSave h (selected w) (stored w) (ed w) = failed (ed w) m"
    with assms Save ed show ?thesis by (auto simp: error_inv_def save_fails_def failed_def)
  next
    fix parsed doc
    assume "handleSave h (selected w) (stored w) (ed w) = saved h (ed w) parsed doc"
    with assms Save ed show ?thesis by (auto simp: error_inv_def save_fails_def saved_def)
  qed
qed (use assms in \<open>auto simp: error_inv_def handleCancel_def handleClose_def reset_def
      split: if_splits\<close>)

lemma exec_error_inv:
  "exec h w evs = Some w' \<Longrightarrow> error_inv f w \<Longrightarrow> error_inv (last_save_failed h f w evs) w'"
proof (induction evs arbitrary: w f)
  case Nil
  then show ?case by simp
next
  case (Cons ev evs)
  then obtain w1 where s: "step h ev w = Some w1" and r: "exec h w1 evs = Some w'"
    by (auto split: option.splits)
  from step_error_inv[OF s Cons.prems(2)] Cons.IH[OF r] s show ?case by simp
qed

text \<open>
  C8. The specification lets cancel restore the text of the editor to the displayed
  content. \<^verbatim>\<open>handleCancel\<close> restores it to the projection of the rows of the selected
  node, and after a save has succeeded the displayed content is the saved value while
  the rows are still those of the selection. Here the node shows 1; the user saves 2,
  edits again, types 3 and cancels: the display shows 2 and the text of the editor is
  back to 1.
\<close>

theorem cancel_after_save_restores_stale_rows:
  "exec example_host (init example_host (Some number_node) ''1'')
     [StartEdit, Typed ''2'', Save, StartEdit, Typed ''3'', Cancel] =
   Some \<lparr>ed = \<lparr>editValue = ''1'', displayContent = ''2'', error = None, isEditing = False\<rparr>,
         selected = Some number_node, stored = ''1'', written = [''2'']\<rparr>"
  by (simp add: host_simps editor_simps path_simps)

text \<open>Before any save, cancel does restore the displayed content.\<close>

lemma cancel_before_save:
  "exec h (init h nodeData json) [StartEdit, Typed s, Cancel] = Some (init h nodeData json)"
  by (simp add: init_def reset_def handleCancel_def)

text \<open>
  C9. In every state that a sequence of events reaches from the initial state, an error
  is present only while the editor is editing and the most recent save attempt of the
  sequence failed.
\<close>

theorem error_only_after_failed_save:
  assumes "exec h (init h nodeData json) evs = Some w" and "error (ed w) \<noteq> None"
  shows "isEditing (ed w) \<and> last_save_failed h False (init h nodeData json) evs"
proof -
  have "error_inv False (init h nodeData json)"
    by (simp add: error_inv_def init_def reset_def)
  from exec_error_inv[OF assms(1) this] assms(2) show ?thesis
    by (simp add: error_inv_def)
qed

theorem error_only_after_failed_save_witness:
  "exec example_host (init example_host (Some number_node) ''1'') [StartEdit, Typed ''{'', Save] =
     Some (invalid_world\<lparr>ed := editing_brace\<lparr>error := Some ''Unexpected token''\<rparr>\<rparr>) \<and>
   error (ed (invalid_world\<lparr>ed := editing_brace\<lparr>error := Some ''Unexpected token''\<rparr>\<rparr>)) \<noteq> None \<and>
   isEditing (ed (invalid_world\<lparr>ed := editing_brace\<lparr>error := Some ''Unexpected token''\<rparr>\<rparr>)) \<and>
   last_save_failed example_host False (init example_host (Some number_node) ''1'')
     [StartEdit, Typed ''{'', Save]"
proof -
  let ?w = "invalid_world\<lparr>ed := editing_brace\<lparr>error := Some ''Unexpected token''\<rparr>\<rparr>"
  have r: "exec example_host (init example_host (Some number_node) ''1'')
      [StartEdit, Typed ''{'', Save] = Some ?w"
    by (simp add: host_simps editor_simps invalid_world_def editing_brace_def)
  have e: "error (ed ?w) \<noteq> None" by simp
  from error_only_after_failed_save[OF r e] r e show ?thesis by simp
qed

end
